theory Spec2Isabelle
  imports Main "HOL-Library.Sublist" "HOL-Library.Word"
begin

section \<open>Text sizing escape sequences (OSC 66)\<close>

text \<open>
  The encoders of \<^verbatim>\<open>packages/core/src/ansi.ts\<close> and
  \<^verbatim>\<open>packages/core/src/zig/ansi.zig\<close>. A string is a list of bytes; the
  payload text is opaque to the encoders, which only concatenate it. A TypeScript
  \<^verbatim>\<open>number\<close> field of the parameter object is an integer, and an optional field
  that is \<^verbatim>\<open>undefined\<close> is \<open>None\<close>.
\<close>

subsection \<open>Decimal rendering\<close>

definition digit_char :: "nat \<Rightarrow> char" where
  "digit_char d = ''0123456789'' ! (d mod 10)"

fun nat_str :: "nat \<Rightarrow> string" where
  "nat_str n = (if n < 10 then [digit_char n] else nat_str (n div 10) @ [digit_char (n mod 10)])"

declare nat_str.simps [simp del]

text \<open>
  Number-to-string conversion of an integer-valued JavaScript number, in plain
  decimal. This is what JavaScript prints for a safe integer, one of magnitude at most
  \<open>2^53 - 1\<close> (\<open>safe_integer\<close> below); every documented parameter range lies inside.
  Beyond the safe integers JavaScript rounds the digits, and from \<open>10^21\<close> it prints
  exponent notation: there \<open>int_str\<close> is not the code's rendering, and what is proved
  about rendered values out of the documented ranges assumes safe integers.
\<close>

definition int_str :: "int \<Rightarrow> string" where
  "int_str i = (if i < 0 then CHR ''-'' # nat_str (nat (- i)) else nat_str (nat i))"

abbreviation ESC :: char where
  "ESC \<equiv> CHR 0x1B"

text \<open>The two-byte string terminator: ESC, then a backslash.\<close>

abbreviation ST :: string where
  "ST \<equiv> [CHR 0x1B, CHR 0x5C]"

subsection \<open>TypeScript: the parameter object and JavaScript's operators\<close>

datatype VerticalAlign = V_top | V_bottom | V_center

datatype HorizontalAlign = H_left | H_right | H_center

record TextSizingParams =
  scale :: "int option"
  width :: "int option"
  numerator :: "int option"
  denominator :: "int option"
  verticalAlign :: "VerticalAlign option"
  horizontalAlign :: "HorizontalAlign option"

text \<open>Truthiness of \<^verbatim>\<open>number | undefined\<close>: \<^verbatim>\<open>undefined\<close> and \<open>0\<close> are falsy.\<close>

fun truthy :: "int option \<Rightarrow> bool" where
  "truthy None = False"
| "truthy (Some v) = (v \<noteq> 0)"

text \<open>
  Truthiness of an optional alignment: the three alignment strings are non-empty,
  so only \<^verbatim>\<open>undefined\<close> is falsy.
\<close>

fun truthy_align :: "'a option \<Rightarrow> bool" where
  "truthy_align None = False"
| "truthy_align (Some v) = True"

text \<open>\<^verbatim>\<open>a > b\<close>: a comparison with \<^verbatim>\<open>undefined\<close> is false.\<close>

fun js_gt :: "int option \<Rightarrow> int option \<Rightarrow> bool" where
  "js_gt (Some a) (Some b) = (a > b)"
| "js_gt _ _ = False"

text \<open>A number in a template literal; \<^verbatim>\<open>undefined\<close> renders as that word.\<close>

fun tmpl :: "int option \<Rightarrow> string" where
  "tmpl None = ''undefined''"
| "tmpl (Some v) = int_str v"

text \<open>\<^verbatim>\<open>Array.prototype.join\<close>.\<close>

fun join :: "string \<Rightarrow> string list \<Rightarrow> string" where
  "join sep [] = []"
| "join sep [x] = x"
| "join sep (x # y # ys) = x @ sep @ join sep (y # ys)"

subsection \<open>TypeScript: the encoders\<close>

text \<open>The array \<^verbatim>\<open>parts\<close> of \<^verbatim>\<open>textSizing\<close> after the five conditional pushes.\<close>

definition textSizing_parts :: "TextSizingParams \<Rightarrow> string list" where
  "textSizing_parts params =
    (let parts = [];
         parts = (if truthy (scale params) \<and> js_gt (scale params) (Some 1)
                  then parts @ [''s='' @ tmpl (scale params)] else parts);
         parts = (if truthy (width params) \<and> js_gt (width params) (Some 0)
                  then parts @ [''w='' @ tmpl (width params)] else parts);
         parts = (if truthy (numerator params) \<and> truthy (denominator params)
                     \<and> js_gt (denominator params) (numerator params)
                  then parts @ [''n='' @ tmpl (numerator params) @ '':d='' @ tmpl (denominator params)]
                  else parts);
         parts = (if truthy_align (verticalAlign params) \<and> verticalAlign params \<noteq> Some V_top
                  then let v = (if verticalAlign params = Some V_bottom then 1 else 2)
                       in parts @ [''v='' @ int_str v]
                  else parts);
         parts = (if truthy_align (horizontalAlign params) \<and> horizontalAlign params \<noteq> Some H_left
                  then let h = (if horizontalAlign params = Some H_right then 1 else 2)
                       in parts @ [''h='' @ int_str h]
                  else parts)
     in parts)"

text \<open>The constant \<^verbatim>\<open>paramsStr\<close> of \<^verbatim>\<open>textSizing\<close>.\<close>

definition textSizing_paramsStr :: "TextSizingParams \<Rightarrow> string" where
  "textSizing_paramsStr params =
    (let parts = textSizing_parts params
     in if length parts > 0 then join '':'' parts @ '';'' else '';'')"

definition textSizing :: "TextSizingParams \<Rightarrow> string \<Rightarrow> string" where
  "textSizing params text =
    (let paramsStr = textSizing_paramsStr params
     in ESC # '']66'' @ paramsStr @ text @ ST)"

definition scaledText :: "int \<Rightarrow> string \<Rightarrow> string" where
  "scaledText scale' text = ESC # '']66;s='' @ int_str scale' @ '';'' @ text @ ST"

definition fractionalText :: "int \<Rightarrow> int \<Rightarrow> string \<Rightarrow> string" where
  "fractionalText numerator' denominator' text =
    ESC # '']66;n='' @ int_str numerator' @ '':d='' @ int_str denominator' @ '';'' @ text @ ST"

definition textSizingWithWidth :: "int \<Rightarrow> int \<Rightarrow> string \<Rightarrow> string" where
  "textSizingWithWidth scale' width' text =
    ESC # '']66;s='' @ int_str scale' @ '':w='' @ int_str width' @ '';'' @ text @ ST"

definition explicitWidth :: "int \<Rightarrow> string \<Rightarrow> string" where
  "explicitWidth width' text = ESC # '']66;w='' @ int_str width' @ '';'' @ text @ ST"

text \<open>The parameter object in which every field is \<^verbatim>\<open>undefined\<close>.\<close>

definition no_params :: TextSizingParams where
  "no_params = \<lparr>scale = None, width = None, numerator = None, denominator = None,
     verticalAlign = None, horizontalAlign = None\<rparr>"

text \<open>
  The parameter object with every field given at its documented default
  (scale 1, width 0, numerator 0, denominator 0, top, left).
\<close>

definition default_params :: TextSizingParams where
  "default_params = \<lparr>scale = Some 1, width = Some 0, numerator = Some 0, denominator = Some 0,
     verticalAlign = Some V_top, horizontalAlign = Some H_left\<rparr>"

subsection \<open>Zig: writers, the parameter struct, the encoders\<close>

datatype AnsiError = InvalidFormat | WriteFailed

text \<open>
  The \<^verbatim>\<open>writer: anytype\<close> argument: a byte sink that has received \<open>written\<close> and
  accepts at most \<open>limit\<close> bytes in all (\<open>None\<close>: a growable buffer). A write that
  does not fit fails, and every encoder turns that into \<open>WriteFailed\<close>.
\<close>

record Writer =
  written :: string
  limit :: "nat option"

definition writeAll :: "Writer \<Rightarrow> string \<Rightarrow> AnsiError + Writer" where
  "writeAll writer bytes =
    (case limit writer of
       None \<Rightarrow> Inr (writer\<lparr>written := written writer @ bytes\<rparr>)
     | Some n \<Rightarrow>
         if length (written writer) + length bytes \<le> n
         then Inr (writer\<lparr>written := written writer @ bytes\<rparr>)
         else Inl WriteFailed)"

definition writeByte :: "Writer \<Rightarrow> char \<Rightarrow> AnsiError + Writer" where
  "writeByte writer byte = writeAll writer [byte]"

text \<open>Sequencing of fallible steps: the first error is returned.\<close>

fun and_then :: "AnsiError + 'a \<Rightarrow> ('a \<Rightarrow> AnsiError + 'b) \<Rightarrow> AnsiError + 'b" where
  "and_then (Inl e) f = Inl e"
| "and_then (Inr x) f = f x"

datatype VerticalAlign_zig = top | bottom | center

datatype HorizontalAlign_zig = left | right | center_h

text \<open>\<^verbatim>\<open>@intFromEnum\<close> on the two \<^verbatim>\<open>enum(u8)\<close> types.\<close>

fun intFromEnum_v :: "VerticalAlign_zig \<Rightarrow> 8 word" where
  "intFromEnum_v top = 0"
| "intFromEnum_v bottom = 1"
| "intFromEnum_v center = 2"

fun intFromEnum_h :: "HorizontalAlign_zig \<Rightarrow> 8 word" where
  "intFromEnum_h left = 0"
| "intFromEnum_h right = 1"
| "intFromEnum_h center_h = 2"

record TextSizingParams_zig =
  scale_zig :: "8 word"
  width_zig :: "8 word"
  numerator_zig :: "8 word"
  denominator_zig :: "8 word"
  vertical_align :: VerticalAlign_zig
  horizontal_align :: HorizontalAlign_zig

text \<open>The \<^verbatim>\<open>{d}\<close> format of an unsigned integer.\<close>

definition fmt_d :: "'a::len word \<Rightarrow> string" where
  "fmt_d w = nat_str (unat w)"

text \<open>
  The step repeated before the width, fraction and alignment fields of
  \<^verbatim>\<open>textSizingOutput\<close>: a colon after an earlier field, else the first semicolon.
  The state is the writer with the flag \<^verbatim>\<open>needs_separator\<close>.
\<close>

definition write_separator :: "Writer \<times> bool \<Rightarrow> AnsiError + (Writer \<times> bool)" where
  "write_separator st =
    (case st of (writer, needs_separator) \<Rightarrow>
       if needs_separator
       then and_then (writeByte writer (CHR '':'')) (\<lambda>writer. Inr (writer, needs_separator))
       else and_then (writeByte writer (CHR '';'')) (\<lambda>writer. Inr (writer, True)))"

definition textSizingOutput :: "Writer \<Rightarrow> TextSizingParams_zig \<Rightarrow> string \<Rightarrow> AnsiError + Writer" where
  "textSizingOutput writer params text =
    and_then (writeAll writer (ESC # '']66'')) (\<lambda>writer.
    and_then (if scale_zig params > 1
              then and_then (writeAll writer ('';s='' @ fmt_d (scale_zig params)))
                     (\<lambda>writer. Inr (writer, True))
              else Inr (writer, False)) (\<lambda>st.
    and_then (if width_zig params > 0
              then and_then (write_separator st) (\<lambda>(writer, needs_separator).
                   and_then (writeAll writer (''w='' @ fmt_d (width_zig params)))
                     (\<lambda>writer. Inr (writer, needs_separator)))
              else Inr st) (\<lambda>st.
    and_then (if numerator_zig params > 0 \<and> denominator_zig params > numerator_zig params
              then and_then (write_separator st) (\<lambda>(writer, needs_separator).
                   and_then (writeAll writer (''n='' @ fmt_d (numerator_zig params)
                                                @ '':d='' @ fmt_d (denominator_zig params)))
                     (\<lambda>writer. Inr (writer, needs_separator)))
              else Inr st) (\<lambda>st.
    and_then (if vertical_align params \<noteq> top
              then and_then (write_separator st) (\<lambda>(writer, needs_separator).
                   let v = intFromEnum_v (vertical_align params)
                   in and_then (writeAll writer (''v='' @ fmt_d v))
                        (\<lambda>writer. Inr (writer, needs_separator)))
              else Inr st) (\<lambda>st.
    and_then (if horizontal_align params \<noteq> left
              then and_then (write_separator st) (\<lambda>(writer, needs_separator).
                   let h = intFromEnum_h (horizontal_align params)
                   in and_then (writeAll writer (''h='' @ fmt_d h))
                        (\<lambda>writer. Inr (writer, needs_separator)))
              else Inr st) (\<lambda>(writer, needs_separator).
    and_then (writeByte writer (CHR '';'')) (\<lambda>writer.
    and_then (writeAll writer text) (\<lambda>writer.
    writeAll writer ST))))))))"

definition explicitWidthOutput :: "Writer \<Rightarrow> 32 word \<Rightarrow> string \<Rightarrow> AnsiError + Writer" where
  "explicitWidthOutput writer width' text =
    writeAll writer (ESC # '']66;w='' @ fmt_d width' @ '';'' @ text @ ST)"

definition scaledTextOutput :: "Writer \<Rightarrow> 8 word \<Rightarrow> string \<Rightarrow> AnsiError + Writer" where
  "scaledTextOutput writer scale' text =
    writeAll writer (ESC # '']66;s='' @ fmt_d scale' @ '';'' @ text @ ST)"

definition fractionalTextOutput :: "Writer \<Rightarrow> 8 word \<Rightarrow> 8 word \<Rightarrow> string \<Rightarrow> AnsiError + Writer" where
  "fractionalTextOutput writer numerator' denominator' text =
    writeAll writer (ESC # '']66;n='' @ fmt_d numerator' @ '':d='' @ fmt_d denominator'
                       @ '';'' @ text @ ST)"

definition textSizingWithWidthOutput :: "Writer \<Rightarrow> 8 word \<Rightarrow> 8 word \<Rightarrow> string \<Rightarrow> AnsiError + Writer" where
  "textSizingWithWidthOutput writer scale' width' text =
    writeAll writer (ESC # '']66;s='' @ fmt_d scale' @ '':w='' @ fmt_d width' @ '';'' @ text @ ST)"

definition cursorPositionRequest :: string where
  "cursorPositionRequest = ESC # ''[6n''"

definition explicitWidthQuery :: string where
  "explicitWidthQuery = ESC # '']66;w=1; '' @ ST"

definition scaledTextQuery :: string where
  "scaledTextQuery = ESC # '']66;s=2; '' @ ST"

text \<open>An empty growable buffer.\<close>

definition empty_writer :: Writer where
  "empty_writer = \<lparr>written = [], limit = None\<rparr>"

subsection \<open>Reading a parameter object\<close>

text \<open>
  The value of each field with the interface's documented default in place of
  \<^verbatim>\<open>undefined\<close>: scale 1, width 0, numerator 0, denominator 0, top, left.
\<close>

definition scale_of :: "TextSizingParams \<Rightarrow> int" where
  "scale_of p = (case scale p of None \<Rightarrow> 1 | Some s \<Rightarrow> s)"

definition width_of :: "TextSizingParams \<Rightarrow> int" where
  "width_of p = (case width p of None \<Rightarrow> 0 | Some w \<Rightarrow> w)"

definition numerator_of :: "TextSizingParams \<Rightarrow> int" where
  "numerator_of p = (case numerator p of None \<Rightarrow> 0 | Some n \<Rightarrow> n)"

definition denominator_of :: "TextSizingParams \<Rightarrow> int" where
  "denominator_of p = (case denominator p of None \<Rightarrow> 0 | Some d \<Rightarrow> d)"

definition verticalAlign_of :: "TextSizingParams \<Rightarrow> VerticalAlign" where
  "verticalAlign_of p = (case verticalAlign p of None \<Rightarrow> V_top | Some v \<Rightarrow> v)"

definition horizontalAlign_of :: "TextSizingParams \<Rightarrow> HorizontalAlign" where
  "horizontalAlign_of p = (case horizontalAlign p of None \<Rightarrow> H_left | Some h \<Rightarrow> h)"

text \<open>
  What each of the five conditional pushes of \<^verbatim>\<open>textSizing\<close> appends, in terms of
  the field values read with their defaults (see \<open>textSizing_parts_split\<close>).
\<close>

definition scale_part :: "TextSizingParams \<Rightarrow> string list" where
  "scale_part p = (if 1 < scale_of p then [''s='' @ int_str (scale_of p)] else [])"

definition width_part :: "TextSizingParams \<Rightarrow> string list" where
  "width_part p = (if 0 < width_of p then [''w='' @ int_str (width_of p)] else [])"

definition fraction_part :: "TextSizingParams \<Rightarrow> string list" where
  "fraction_part p =
     (if numerator_of p \<noteq> 0 \<and> denominator_of p \<noteq> 0 \<and> numerator_of p < denominator_of p
      then [''n='' @ int_str (numerator_of p) @ '':d='' @ int_str (denominator_of p)] else [])"

definition verticalAlign_part :: "TextSizingParams \<Rightarrow> string list" where
  "verticalAlign_part p =
     (case verticalAlign_of p of V_top \<Rightarrow> [] | V_bottom \<Rightarrow> [''v=1''] | V_center \<Rightarrow> [''v=2''])"

definition horizontalAlign_part :: "TextSizingParams \<Rightarrow> string list" where
  "horizontalAlign_part p =
     (case horizontalAlign_of p of H_left \<Rightarrow> [] | H_right \<Rightarrow> [''h=1''] | H_center \<Rightarrow> [''h=2''])"

text \<open>Every numeric field within its documented range.\<close>

definition valid_params :: "TextSizingParams \<Rightarrow> bool" where
  "valid_params p \<longleftrightarrow>
     1 \<le> scale_of p \<and> scale_of p \<le> 7 \<and> 0 \<le> width_of p \<and> width_of p \<le> 7 \<and>
     0 \<le> numerator_of p \<and> numerator_of p \<le> 15 \<and>
     0 \<le> denominator_of p \<and> denominator_of p \<le> 15"



text \<open>Some string of the list contains the character.\<close>

definition occurs :: "char \<Rightarrow> string list \<Rightarrow> bool" where
  "occurs c ps = (\<exists>g\<in>set ps. c \<in> set g)"

subsection \<open>The encoding as the specification words it\<close>

text \<open>
  The five field groups in their fixed order, the condition under which each
  contributes (it differs from its default) and its rendering \<open>key=value\<close>.
\<close>

datatype field = Scale | Width | Fractional | VerticalAlignment | HorizontalAlignment

definition field_order :: "field list" where
  "field_order = [Scale, Width, Fractional, VerticalAlignment, HorizontalAlignment]"

fun contributes :: "TextSizingParams \<Rightarrow> field \<Rightarrow> bool" where
  "contributes p Scale = (scale_of p > 1)"
| "contributes p Width = (width_of p > 0)"
| "contributes p Fractional = (numerator_of p > 0 \<and> denominator_of p > numerator_of p)"
| "contributes p VerticalAlignment = (verticalAlign_of p \<noteq> V_top)"
| "contributes p HorizontalAlignment = (horizontalAlign_of p \<noteq> H_left)"

fun field_group :: "TextSizingParams \<Rightarrow> field \<Rightarrow> string" where
  "field_group p Scale = ''s='' @ int_str (scale_of p)"
| "field_group p Width = ''w='' @ int_str (width_of p)"
| "field_group p Fractional =
     ''n='' @ int_str (numerator_of p) @ '':d='' @ int_str (denominator_of p)"
| "field_group p VerticalAlignment =
     (case verticalAlign_of p of V_top \<Rightarrow> ''v=0'' | V_bottom \<Rightarrow> ''v=1'' | V_center \<Rightarrow> ''v=2'')"
| "field_group p HorizontalAlignment =
     (case horizontalAlign_of p of H_left \<Rightarrow> ''h=0'' | H_right \<Rightarrow> ''h=1'' | H_center \<Rightarrow> ''h=2'')"

definition field_groups :: "TextSizingParams \<Rightarrow> string list" where
  "field_groups p = map (field_group p) (filter (contributes p) field_order)"

text \<open>The Zig parameter struct with every field at its declared default.\<close>

definition default_params_zig :: TextSizingParams_zig where
  "default_params_zig = \<lparr>scale_zig = 1, width_zig = 0, numerator_zig = 0, denominator_zig = 0,
     vertical_align = top, horizontal_align = left\<rparr>"

text \<open>A parameter object in which every field differs from its default.\<close>

definition all_fields :: TextSizingParams where
  "all_fields = \<lparr>scale = Some 2, width = Some 3, numerator = Some 1, denominator = Some 2,
     verticalAlign = Some V_bottom, horizontalAlign = Some H_center\<rparr>"

section \<open>Auxiliary facts\<close>

subsection \<open>Characters of a rendered number\<close>

lemma digit_char_mem: "digit_char d \<in> set ''0123456789''"
proof -
  have "d mod 10 < length ''0123456789''" by simp
  then show ?thesis unfolding digit_char_def by (rule nth_mem)
qed

lemma nat_str_chars_gen:
  assumes D: "\<And>d. digit_char d \<in> D"
  shows "set (nat_str n) \<subseteq> D"
proof (induction n rule: nat_str.induct)
  case (1 n)
  show ?case
  proof (cases "n < 10")
    case True
    then have "nat_str n = [digit_char n]" by (subst nat_str.simps) simp
    then show ?thesis using D by simp
  next
    case False
    then have e: "nat_str n = nat_str (n div 10) @ [digit_char (n mod 10)]"
      by (subst nat_str.simps) simp
    have "set (nat_str (n div 10)) \<subseteq> D" using 1 False by blast
    then show ?thesis using D unfolding e by simp
  qed
qed

lemma int_str_chars_gen:
  assumes D: "\<And>d. digit_char d \<in> D" and m: "CHR ''-'' \<in> D"
  shows "set (int_str i) \<subseteq> D"
  using nat_str_chars_gen [OF D, of "nat i"] nat_str_chars_gen [OF D, of "nat (- i)"] m
  by (simp add: int_str_def)

lemma digit_char_num: "digit_char d \<in> set ''-0123456789''"
proof -
  have "Suc (d mod 10) < length ''-0123456789''" by simp
  then have "''-0123456789'' ! Suc (d mod 10) \<in> set ''-0123456789''" by (rule nth_mem)
  then show ?thesis unfolding digit_char_def by simp
qed

lemma int_str_chars: "set (int_str i) \<subseteq> set ''-0123456789''"
  by (rule int_str_chars_gen) (rule digit_char_num, simp)

lemma key_not_num:
  "CHR ''s'' \<notin> set ''-0123456789''" "CHR ''w'' \<notin> set ''-0123456789''"
  "CHR ''n'' \<notin> set ''-0123456789''" "CHR ''d'' \<notin> set ''-0123456789''"
  "CHR ''v'' \<notin> set ''-0123456789''" "CHR ''h'' \<notin> set ''-0123456789''"
  by simp_all

lemma key_notin_int_str [simp]:
  "CHR ''s'' \<notin> set (int_str i)" "CHR ''w'' \<notin> set (int_str i)"
  "CHR ''n'' \<notin> set (int_str i)" "CHR ''d'' \<notin> set (int_str i)"
  "CHR ''v'' \<notin> set (int_str i)" "CHR ''h'' \<notin> set (int_str i)"
  using int_str_chars [of i] key_not_num by blast+

lemma int_str_small:
  "int_str 1 = ''1''" "int_str 2 = ''2''"
  by (simp_all add: int_str_def nat_str.simps digit_char_def)

lemma push_scale:
  "(if truthy x \<and> js_gt x (Some 1) then ps @ [''s='' @ tmpl x] else ps)
    = ps @ (case x of None \<Rightarrow> [] | Some s \<Rightarrow> if 1 < s then [''s='' @ int_str s] else [])"
  by (cases x) auto

lemma push_width:
  "(if truthy x \<and> js_gt x (Some 0) then ps @ [''w='' @ tmpl x] else ps)
    = ps @ (case x of None \<Rightarrow> [] | Some w \<Rightarrow> if 0 < w then [''w='' @ int_str w] else [])"
  by (cases x) auto

lemma push_fraction:
  "(if truthy x \<and> truthy y \<and> js_gt y x then ps @ [''n='' @ tmpl x @ '':d='' @ tmpl y] else ps)
    = ps @ (case x of None \<Rightarrow> [] | Some n \<Rightarrow> (case y of None \<Rightarrow> [] | Some d \<Rightarrow>
         if n \<noteq> 0 \<and> d \<noteq> 0 \<and> n < d then [''n='' @ int_str n @ '':d='' @ int_str d] else []))"
  by (cases x; cases y) auto

lemma push_verticalAlign:
  "(if truthy_align x \<and> x \<noteq> Some V_top
    then ps @ [''v='' @ int_str (if x = Some V_bottom then 1 else 2)] else ps)
    = ps @ (case (case x of None \<Rightarrow> V_top | Some v \<Rightarrow> v) of
              V_top \<Rightarrow> [] | V_bottom \<Rightarrow> [''v=1''] | V_center \<Rightarrow> [''v=2''])"
  by (cases x) (auto simp: int_str_small split: VerticalAlign.splits)

lemma push_horizontalAlign:
  "(if truthy_align x \<and> x \<noteq> Some H_left
    then ps @ [''h='' @ int_str (if x = Some H_right then 1 else 2)] else ps)
    = ps @ (case (case x of None \<Rightarrow> H_left | Some h \<Rightarrow> h) of
              H_left \<Rightarrow> [] | H_right \<Rightarrow> [''h=1''] | H_center \<Rightarrow> [''h=2''])"
  by (cases x) (auto simp: int_str_small split: HorizontalAlign.splits)

lemma textSizing_parts_split:
  "textSizing_parts p =
     scale_part p @ width_part p @ fraction_part p @ verticalAlign_part p @ horizontalAlign_part p"
proof -
  have s: "(case scale p of None \<Rightarrow> [] | Some s \<Rightarrow> if 1 < s then [''s='' @ int_str s] else []) = scale_part p"
    by (simp add: scale_part_def scale_of_def split: option.splits)
  have w: "(case width p of None \<Rightarrow> [] | Some w \<Rightarrow> if 0 < w then [''w='' @ int_str w] else []) = width_part p"
    by (simp add: width_part_def width_of_def split: option.splits)
  have f: "(case numerator p of None \<Rightarrow> [] | Some n \<Rightarrow> (case denominator p of None \<Rightarrow> [] | Some d \<Rightarrow>
         if n \<noteq> 0 \<and> d \<noteq> 0 \<and> n < d then [''n='' @ int_str n @ '':d='' @ int_str d] else [])) = fraction_part p"
    by (simp add: fraction_part_def numerator_of_def denominator_of_def split: option.splits)
  show ?thesis
    unfolding textSizing_parts_def Let_def push_scale push_width push_fraction
      push_verticalAlign push_horizontalAlign s w f
    unfolding verticalAlign_part_def horizontalAlign_part_def verticalAlign_of_def
      horizontalAlign_of_def
    by (simp only: append_Nil append_assoc)
qed

lemma set_join:
  "c \<notin> set sep \<Longrightarrow> c \<in> set (join sep xs) \<longleftrightarrow> (\<exists>x\<in>set xs. c \<in> set x)"
  by (induction sep xs rule: join.induct) auto

lemma sublist_within: "sublist g ys \<Longrightarrow> sublist g (ps @ ys @ ss)"
  using sublist_order.order.trans [OF _ sublist_appendI] .

lemma sublist_join: "g \<in> set xs \<Longrightarrow> sublist g (join sep xs)"
proof (induction sep xs rule: join.induct)
  case (1 sep)
  then show ?case by simp
next
  case (2 sep x)
  then show ?case by simp
next
  case (3 sep x y ys)
  show ?case
  proof (cases "g = x")
    case True
    then show ?thesis by simp
  next
    case False
    with 3 have "sublist g (join sep (y # ys))" by simp
    then have "sublist g ((x @ sep) @ join sep (y # ys) @ [])" by (rule sublist_within)
    then show ?thesis by simp
  qed
qed

lemma part_in_paramsStr:
  assumes "g \<in> set (textSizing_parts p)"
  shows "sublist g (textSizing_paramsStr p)"
proof -
  from assms have ne: "textSizing_parts p \<noteq> []" by auto
  have "sublist g (join '':'' (textSizing_parts p))" using assms by (rule sublist_join)
  then have "sublist g ([] @ join '':'' (textSizing_parts p) @ '';'')" by (rule sublist_within)
  then show ?thesis using ne by (simp add: textSizing_paramsStr_def)
qed

lemma letter_in_paramsStr:
  assumes "c \<noteq> CHR '':''" "c \<noteq> CHR '';''"
  shows "c \<in> set (textSizing_paramsStr p) \<longleftrightarrow> (\<exists>g\<in>set (textSizing_parts p). c \<in> set g)"
proof (cases "textSizing_parts p = []")
  case True
  then show ?thesis using assms by (simp add: textSizing_paramsStr_def)
next
  case False
  have "c \<notin> set '':''" using assms by simp
  then show ?thesis using False assms by (simp add: textSizing_paramsStr_def set_join)
qed

lemma occurs_append: "occurs c (ps @ qs) \<longleftrightarrow> occurs c ps \<or> occurs c qs"
  by (auto simp: occurs_def)

lemma occurs_scale_part:
  "occurs (CHR ''s'') (scale_part p) \<longleftrightarrow> 1 < scale_of p"
  "\<not> occurs (CHR ''w'') (scale_part p)"
  "\<not> occurs (CHR ''n'') (scale_part p)"
  "\<not> occurs (CHR ''d'') (scale_part p)"
  "\<not> occurs (CHR ''v'') (scale_part p)"
  "\<not> occurs (CHR ''h'') (scale_part p)"
  by (simp_all add: occurs_def scale_part_def)

lemma occurs_width_part:
  "\<not> occurs (CHR ''s'') (width_part p)"
  "occurs (CHR ''w'') (width_part p) \<longleftrightarrow> 0 < width_of p"
  "\<not> occurs (CHR ''n'') (width_part p)"
  "\<not> occurs (CHR ''d'') (width_part p)"
  "\<not> occurs (CHR ''v'') (width_part p)"
  "\<not> occurs (CHR ''h'') (width_part p)"
  by (simp_all add: occurs_def width_part_def)

lemma occurs_fraction_part:
  "\<not> occurs (CHR ''s'') (fraction_part p)"
  "\<not> occurs (CHR ''w'') (fraction_part p)"
  "occurs (CHR ''n'') (fraction_part p) \<longleftrightarrow> fraction_part p \<noteq> []"
  "occurs (CHR ''d'') (fraction_part p) \<longleftrightarrow> fraction_part p \<noteq> []"
  "\<not> occurs (CHR ''v'') (fraction_part p)"
  "\<not> occurs (CHR ''h'') (fraction_part p)"
  by (simp_all add: occurs_def fraction_part_def)

lemma occurs_verticalAlign_part:
  "\<not> occurs (CHR ''s'') (verticalAlign_part p)"
  "\<not> occurs (CHR ''w'') (verticalAlign_part p)"
  "\<not> occurs (CHR ''n'') (verticalAlign_part p)"
  "\<not> occurs (CHR ''d'') (verticalAlign_part p)"
  "occurs (CHR ''v'') (verticalAlign_part p) \<longleftrightarrow> verticalAlign_of p \<noteq> V_top"
  "\<not> occurs (CHR ''h'') (verticalAlign_part p)"
  by (simp_all add: occurs_def verticalAlign_part_def split: VerticalAlign.splits)

lemma occurs_horizontalAlign_part:
  "\<not> occurs (CHR ''s'') (horizontalAlign_part p)"
  "\<not> occurs (CHR ''w'') (horizontalAlign_part p)"
  "\<not> occurs (CHR ''n'') (horizontalAlign_part p)"
  "\<not> occurs (CHR ''d'') (horizontalAlign_part p)"
  "\<not> occurs (CHR ''v'') (horizontalAlign_part p)"
  "occurs (CHR ''h'') (horizontalAlign_part p) \<longleftrightarrow> horizontalAlign_of p \<noteq> H_left"
  by (simp_all add: occurs_def horizontalAlign_part_def split: HorizontalAlign.splits)

lemmas occurs_parts = textSizing_parts_split occurs_append occurs_scale_part occurs_width_part
  occurs_fraction_part occurs_verticalAlign_part occurs_horizontalAlign_part

lemma letter_in_paramsStr':
  assumes "c \<noteq> CHR '':''" "c \<noteq> CHR '';''"
  shows "c \<in> set (textSizing_paramsStr p) \<longleftrightarrow> occurs c (textSizing_parts p)"
  using letter_in_paramsStr [OF assms] by (simp add: occurs_def)

lemma key_in_paramsStr:
  "CHR ''s'' \<in> set (textSizing_paramsStr p) \<longleftrightarrow> 1 < scale_of p"
  "CHR ''w'' \<in> set (textSizing_paramsStr p) \<longleftrightarrow> 0 < width_of p"
  "CHR ''n'' \<in> set (textSizing_paramsStr p) \<longleftrightarrow> fraction_part p \<noteq> []"
  "CHR ''d'' \<in> set (textSizing_paramsStr p) \<longleftrightarrow> fraction_part p \<noteq> []"
  "CHR ''v'' \<in> set (textSizing_paramsStr p) \<longleftrightarrow> verticalAlign_of p \<noteq> V_top"
  "CHR ''h'' \<in> set (textSizing_paramsStr p) \<longleftrightarrow> horizontalAlign_of p \<noteq> H_left"
  by (simp_all add: letter_in_paramsStr' occurs_parts)

subsection \<open>Field groups in the array and in the parameter block\<close>

lemmas of_eval = scale_of_def width_of_def numerator_of_def denominator_of_def
  verticalAlign_of_def horizontalAlign_of_def valid_params_def

lemma sublist_paramsStr_I:
  "g \<in> set (textSizing_parts p) \<Longrightarrow> sublist k g \<Longrightarrow> sublist k (textSizing_paramsStr p)"
  using part_in_paramsStr sublist_order.order.trans by blast

lemma sublist_paramsStr_D:
  "sublist (c # cs) (textSizing_paramsStr p) \<Longrightarrow> c \<in> set (textSizing_paramsStr p)"
  using set_mono_sublist by fastforce

lemmas part_defs = scale_part_def width_part_def fraction_part_def verticalAlign_part_def
  horizontalAlign_part_def

lemma group_s:
  "''s='' @ int_str (scale_of p) \<in> set (textSizing_parts p) \<longleftrightarrow> 1 < scale_of p"
  by (simp add: textSizing_parts_split part_defs
      split: VerticalAlign.splits HorizontalAlign.splits)

lemma group_w:
  "''w='' @ int_str (width_of p) \<in> set (textSizing_parts p) \<longleftrightarrow> 0 < width_of p"
  by (simp add: textSizing_parts_split part_defs
      split: VerticalAlign.splits HorizontalAlign.splits)

lemma group_nd:
  "''n='' @ int_str (numerator_of p) @ '':d='' @ int_str (denominator_of p)
     \<in> set (textSizing_parts p)
   \<longleftrightarrow> numerator_of p \<noteq> 0 \<and> denominator_of p \<noteq> 0 \<and> numerator_of p < denominator_of p"
  by (simp add: textSizing_parts_split part_defs
      split: VerticalAlign.splits HorizontalAlign.splits)

lemma groups_v:
  "filter (prefix ''v='') (textSizing_parts p) = verticalAlign_part p"
  by (simp add: textSizing_parts_split part_defs
      split: VerticalAlign.splits HorizontalAlign.splits)

lemma groups_h:
  "filter (prefix ''h='') (textSizing_parts p) = horizontalAlign_part p"
  by (simp add: textSizing_parts_split part_defs
      split: VerticalAlign.splits HorizontalAlign.splits)

lemma wire_s: "sublist ''s='' (textSizing_paramsStr p) \<longleftrightarrow> 1 < scale_of p"
proof
  assume "sublist ''s='' (textSizing_paramsStr p)"
  then show "1 < scale_of p" using sublist_paramsStr_D key_in_paramsStr(1) by blast
next
  assume "1 < scale_of p"
  then have "''s='' @ int_str (scale_of p) \<in> set (textSizing_parts p)" using group_s by blast
  then show "sublist ''s='' (textSizing_paramsStr p)"
    by (rule sublist_paramsStr_I) (rule sublist_append_rightI)
qed

lemma wire_w: "sublist ''w='' (textSizing_paramsStr p) \<longleftrightarrow> 0 < width_of p"
proof
  assume "sublist ''w='' (textSizing_paramsStr p)"
  then show "0 < width_of p" using sublist_paramsStr_D key_in_paramsStr(2) by blast
next
  assume "0 < width_of p"
  then have "''w='' @ int_str (width_of p) \<in> set (textSizing_parts p)" using group_w by blast
  then show "sublist ''w='' (textSizing_paramsStr p)"
    by (rule sublist_paramsStr_I) (rule sublist_append_rightI)
qed

lemma fraction_part_nonempty:
  "fraction_part p \<noteq> [] \<longleftrightarrow>
     numerator_of p \<noteq> 0 \<and> denominator_of p \<noteq> 0 \<and> numerator_of p < denominator_of p"
  by (simp add: fraction_part_def)

lemma wire_n:
  "sublist ''n='' (textSizing_paramsStr p) \<longleftrightarrow>
     numerator_of p \<noteq> 0 \<and> denominator_of p \<noteq> 0 \<and> numerator_of p < denominator_of p"
proof
  assume "sublist ''n='' (textSizing_paramsStr p)"
  then have "CHR ''n'' \<in> set (textSizing_paramsStr p)" by (rule sublist_paramsStr_D)
  then show "numerator_of p \<noteq> 0 \<and> denominator_of p \<noteq> 0 \<and> numerator_of p < denominator_of p"
    using key_in_paramsStr(3) fraction_part_nonempty by blast
next
  assume "numerator_of p \<noteq> 0 \<and> denominator_of p \<noteq> 0 \<and> numerator_of p < denominator_of p"
  then have "''n='' @ int_str (numerator_of p) @ '':d='' @ int_str (denominator_of p)
      \<in> set (textSizing_parts p)" using group_nd by blast
  then show "sublist ''n='' (textSizing_paramsStr p)"
    by (rule sublist_paramsStr_I) (rule sublist_append_rightI)
qed

lemma wire_d:
  "sublist ''d='' (textSizing_paramsStr p) \<longleftrightarrow>
     numerator_of p \<noteq> 0 \<and> denominator_of p \<noteq> 0 \<and> numerator_of p < denominator_of p"
proof
  assume "sublist ''d='' (textSizing_paramsStr p)"
  then have "CHR ''d'' \<in> set (textSizing_paramsStr p)" by (rule sublist_paramsStr_D)
  then show "numerator_of p \<noteq> 0 \<and> denominator_of p \<noteq> 0 \<and> numerator_of p < denominator_of p"
    using key_in_paramsStr(4) fraction_part_nonempty by blast
next
  assume "numerator_of p \<noteq> 0 \<and> denominator_of p \<noteq> 0 \<and> numerator_of p < denominator_of p"
  then have g: "''n='' @ int_str (numerator_of p) @ '':d='' @ int_str (denominator_of p)
      \<in> set (textSizing_parts p)" using group_nd by blast
  have "sublist ''d='' ((''n='' @ int_str (numerator_of p) @ '':'') @ ''d='' @ int_str (denominator_of p))"
    by (rule sublist_appendI)
  then have "sublist ''d='' (''n='' @ int_str (numerator_of p) @ '':d='' @ int_str (denominator_of p))"
    by simp
  with g show "sublist ''d='' (textSizing_paramsStr p)" by (rule sublist_paramsStr_I)
qed

lemma wire_v: "sublist ''v='' (textSizing_paramsStr p) \<longleftrightarrow> verticalAlign_of p \<noteq> V_top"
proof
  assume "sublist ''v='' (textSizing_paramsStr p)"
  then show "verticalAlign_of p \<noteq> V_top" using sublist_paramsStr_D key_in_paramsStr(5) by blast
next
  assume a: "verticalAlign_of p \<noteq> V_top"
  then obtain g where g: "verticalAlign_part p = [g]" "prefix ''v='' g"
    by (cases "verticalAlign_of p") (simp_all add: verticalAlign_part_def)
  then have "g \<in> set (textSizing_parts p)" by (simp add: textSizing_parts_split)
  then show "sublist ''v='' (textSizing_paramsStr p)"
    using g(2) by (rule sublist_paramsStr_I [OF _ prefix_imp_sublist])
qed

lemma wire_h: "sublist ''h='' (textSizing_paramsStr p) \<longleftrightarrow> horizontalAlign_of p \<noteq> H_left"
proof
  assume "sublist ''h='' (textSizing_paramsStr p)"
  then show "horizontalAlign_of p \<noteq> H_left" using sublist_paramsStr_D key_in_paramsStr(6) by blast
next
  assume a: "horizontalAlign_of p \<noteq> H_left"
  then obtain g where g: "horizontalAlign_part p = [g]" "prefix ''h='' g"
    by (cases "horizontalAlign_of p") (simp_all add: horizontalAlign_part_def)
  then have "g \<in> set (textSizing_parts p)" by (simp add: textSizing_parts_split)
  then show "sublist ''h='' (textSizing_paramsStr p)"
    using g(2) by (rule sublist_paramsStr_I [OF _ prefix_imp_sublist])
qed

lemma textSizing_ends:
  "suffix (textSizing_paramsStr p @ text @ ST) (textSizing p text)"
  by (simp add: textSizing_def suffix_def)

lemma verticalAlign_part_nonempty: "verticalAlign_part p \<noteq> [] \<longleftrightarrow> verticalAlign_of p \<noteq> V_top"
  by (cases "verticalAlign_of p") (simp_all add: verticalAlign_part_def)

lemma horizontalAlign_part_nonempty:
  "horizontalAlign_part p \<noteq> [] \<longleftrightarrow> horizontalAlign_of p \<noteq> H_left"
  by (cases "horizontalAlign_of p") (simp_all add: horizontalAlign_part_def)

lemma group_v:
  "(\<exists>g\<in>set (textSizing_parts p). prefix ''v='' g) \<longleftrightarrow> verticalAlign_of p \<noteq> V_top"
proof -
  have "(\<exists>g\<in>set (textSizing_parts p). prefix ''v='' g)
      \<longleftrightarrow> filter (prefix ''v='') (textSizing_parts p) \<noteq> []"
    by (simp add: filter_empty_conv)
  then show ?thesis by (simp only: groups_v verticalAlign_part_nonempty)
qed

lemma group_h:
  "(\<exists>g\<in>set (textSizing_parts p). prefix ''h='' g) \<longleftrightarrow> horizontalAlign_of p \<noteq> H_left"
proof -
  have "(\<exists>g\<in>set (textSizing_parts p). prefix ''h='' g)
      \<longleftrightarrow> filter (prefix ''h='') (textSizing_parts p) \<noteq> []"
    by (simp add: filter_empty_conv)
  then show ?thesis by (simp only: groups_h horizontalAlign_part_nonempty)
qed

lemma valid_fraction:
  assumes "valid_params p"
  shows "(numerator_of p \<noteq> 0 \<and> denominator_of p \<noteq> 0 \<and> numerator_of p < denominator_of p)
     \<longleftrightarrow> (numerator_of p > 0 \<and> denominator_of p > numerator_of p)"
  using assms unfolding valid_params_def by linarith

subsection \<open>Field groups in the returned string\<close>

lemma textSizing_shape:
  "textSizing p text = (ESC # '']66'') @ textSizing_paramsStr p @ (text @ ST)"
  by (simp add: textSizing_def)

lemma sublist_output_I:
  assumes "sublist k (textSizing_paramsStr p)"
  shows "sublist k (textSizing p text)"
  unfolding textSizing_shape using assms by (rule sublist_within)


lemma key_in_output:
  assumes "c \<in> set ''swndvh''" and "c \<notin> set text"
    and "sublist (c # cs) (textSizing p text)"
  shows "c \<in> set (textSizing_paramsStr p)"
proof -
  have "c \<in> set (textSizing p text)" using assms(3) set_mono_sublist by fastforce
  then have "c \<in> set (ESC # '']66'') \<union> set (textSizing_paramsStr p) \<union> set text \<union> set ST"
    unfolding textSizing_shape by (simp only: set_append) blast
  moreover have "c \<notin> set (ESC # '']66'')" "c \<notin> set ST" using assms(1) by auto
  ultimately show ?thesis using assms(2) by blast
qed



lemma output_v:
  assumes "CHR ''v'' \<notin> set text"
  shows "sublist ''v='' (textSizing p text) \<longleftrightarrow> verticalAlign_of p \<noteq> V_top"
proof
  assume a: "sublist ''v='' (textSizing p text)"
  have "CHR ''v'' \<in> set (textSizing_paramsStr p)"
    by (rule key_in_output [OF _ assms a]) simp
  then show "verticalAlign_of p \<noteq> V_top" using key_in_paramsStr [of p] by blast
next
  assume "verticalAlign_of p \<noteq> V_top"
  then have "sublist ''v='' (textSizing_paramsStr p)" using wire_v [of p] by blast
  then show "sublist ''v='' (textSizing p text)" by (rule sublist_output_I)
qed

lemma output_h:
  assumes "CHR ''h'' \<notin> set text"
  shows "sublist ''h='' (textSizing p text) \<longleftrightarrow> horizontalAlign_of p \<noteq> H_left"
proof
  assume a: "sublist ''h='' (textSizing p text)"
  have "CHR ''h'' \<in> set (textSizing_paramsStr p)"
    by (rule key_in_output [OF _ assms a]) simp
  then show "horizontalAlign_of p \<noteq> H_left" using key_in_paramsStr [of p] by blast
next
  assume "horizontalAlign_of p \<noteq> H_left"
  then have "sublist ''h='' (textSizing_paramsStr p)" using wire_h [of p] by blast
  then show "sublist ''h='' (textSizing p text)" by (rule sublist_output_I)
qed

subsection \<open>The parts as the specification lists them\<close>


lemma part_as_field_group:
  "scale_part p = (if contributes p Scale then [field_group p Scale] else [])"
  "width_part p = (if contributes p Width then [field_group p Width] else [])"
  "verticalAlign_part p
     = (if contributes p VerticalAlignment then [field_group p VerticalAlignment] else [])"
  "horizontalAlign_part p
     = (if contributes p HorizontalAlignment then [field_group p HorizontalAlignment] else [])"
  by (simp_all add: part_defs split: VerticalAlign.splits HorizontalAlign.splits)

lemma fraction_part_as_field_group:
  assumes "valid_params p"
  shows "fraction_part p = (if contributes p Fractional then [field_group p Fractional] else [])"
  using valid_fraction [OF assms] by (simp add: fraction_part_def)

lemma field_groups_unfold:
  "field_groups p =
     (if contributes p Scale then [field_group p Scale] else [])
     @ (if contributes p Width then [field_group p Width] else [])
     @ (if contributes p Fractional then [field_group p Fractional] else [])
     @ (if contributes p VerticalAlignment then [field_group p VerticalAlignment] else [])
     @ (if contributes p HorizontalAlignment then [field_group p HorizontalAlignment] else [])"
  unfolding field_groups_def field_order_def by simp

lemma parts_are_field_groups:
  assumes "valid_params p"
  shows "textSizing_parts p = field_groups p"
  unfolding textSizing_parts_split field_groups_unfold part_as_field_group
    fraction_part_as_field_group [OF assms] ..

subsection \<open>Evaluation on concrete inputs\<close>

lemmas ts_eval = textSizing_def textSizing_paramsStr_def textSizing_parts_def no_params_def
  default_params_def int_str_def nat_str.simps digit_char_def

lemmas zig_eval = textSizingOutput_def empty_writer_def default_params_zig_def writeAll_def
  writeByte_def write_separator_def fmt_d_def nat_str.simps digit_char_def

section \<open>The claims\<close>

text \<open>
  C1 (canonical shape, with the semicolon between the code 66 and the parameter
  block). The template of \<^verbatim>\<open>textSizing\<close> has no semicolon after \<open>66\<close>:
  with scale 2 and the text \<open>Hello\<close> it returns \<open>ESC]66s=2;Hello ST\<close>, not
  \<open>ESC]66;s=2;Hello ST\<close>, and with every field at its default and the text \<open>hi\<close> it
  returns \<open>ESC]66;hi ST\<close>, with one semicolon before the payload, not two.
\<close>

theorem textSizing_omits_leading_separator:
  "textSizing (no_params\<lparr>scale := Some 2\<rparr>) ''Hello'' = ESC # '']66s=2;Hello'' @ ST
   \<and> textSizing (no_params\<lparr>scale := Some 2\<rparr>) ''Hello'' \<noteq> ESC # '']66;s=2;Hello'' @ ST
   \<and> textSizing default_params ''hi'' = ESC # '']66;hi'' @ ST
   \<and> textSizing default_params ''hi'' \<noteq> ESC # '']66;;hi'' @ ST
   \<and> textSizing no_params ''hi'' = ESC # '']66;hi'' @ ST"
  by (simp add: ts_eval)

text \<open>
  C2 (the simplified encoders agree with the general encoder). Each of
  \<^verbatim>\<open>scaledText\<close>, \<^verbatim>\<open>fractionalText\<close>, \<^verbatim>\<open>explicitWidth\<close> and
  \<^verbatim>\<open>textSizingWithWidth\<close> writes the semicolon after \<open>66\<close>; the general encoder
  with the same fields does not, so the outputs differ in that one byte.
\<close>

theorem simplified_encoders_differ_from_textSizing:
  "scaledText 2 ''x'' = ESC # '']66;s=2;x'' @ ST
   \<and> textSizing (no_params\<lparr>scale := Some 2\<rparr>) ''x'' = ESC # '']66s=2;x'' @ ST
   \<and> fractionalText 1 2 ''x'' = ESC # '']66;n=1:d=2;x'' @ ST
   \<and> textSizing (no_params\<lparr>numerator := Some 1, denominator := Some 2\<rparr>) ''x''
       = ESC # '']66n=1:d=2;x'' @ ST
   \<and> explicitWidth 2 ''x'' = ESC # '']66;w=2;x'' @ ST
   \<and> textSizing (no_params\<lparr>width := Some 2\<rparr>) ''x'' = ESC # '']66w=2;x'' @ ST
   \<and> textSizingWithWidth 2 2 ''x'' = ESC # '']66;s=2:w=2;x'' @ ST
   \<and> textSizing (no_params\<lparr>scale := Some 2, width := Some 2\<rparr>) ''x''
       = ESC # '']66s=2:w=2;x'' @ ST"
  by (simp add: ts_eval scaledText_def fractionalText_def explicitWidth_def
      textSizingWithWidth_def)

text \<open>
  C3 (a field group is present iff its parameter differs from the default). For a
  parameter object with every numeric field in its range: the group \<open>s=<scale>\<close> is
  among the parts iff the scale exceeds 1, \<open>w=<width>\<close> iff the width exceeds 0, the
  pair \<open>n=<numerator>:d=<denominator>\<close> iff the numerator is positive and the
  denominator exceeds it, a group \<open>v=...\<close> iff the vertical alignment is not top and
  a group \<open>h=...\<close> iff the horizontal alignment is not left; and each key occurs in
  the parameter block, the part of the output that the payload and the terminator
  follow, under the same condition.
\<close>

theorem textSizing_field_iff_not_default:
  assumes "valid_params p"
  shows "(''s='' @ int_str (scale_of p) \<in> set (textSizing_parts p) \<longleftrightarrow> scale_of p > 1)
    \<and> (sublist ''s='' (textSizing_paramsStr p) \<longleftrightarrow> scale_of p > 1)
    \<and> (''w='' @ int_str (width_of p) \<in> set (textSizing_parts p) \<longleftrightarrow> width_of p > 0)
    \<and> (sublist ''w='' (textSizing_paramsStr p) \<longleftrightarrow> width_of p > 0)
    \<and> (''n='' @ int_str (numerator_of p) @ '':d='' @ int_str (denominator_of p)
          \<in> set (textSizing_parts p)
        \<longleftrightarrow> numerator_of p > 0 \<and> denominator_of p > numerator_of p)
    \<and> (sublist ''n='' (textSizing_paramsStr p)
        \<longleftrightarrow> numerator_of p > 0 \<and> denominator_of p > numerator_of p)
    \<and> (sublist ''d='' (textSizing_paramsStr p)
        \<longleftrightarrow> numerator_of p > 0 \<and> denominator_of p > numerator_of p)
    \<and> ((\<exists>g\<in>set (textSizing_parts p). prefix ''v='' g) \<longleftrightarrow> verticalAlign_of p \<noteq> V_top)
    \<and> (sublist ''v='' (textSizing_paramsStr p) \<longleftrightarrow> verticalAlign_of p \<noteq> V_top)
    \<and> ((\<exists>g\<in>set (textSizing_parts p). prefix ''h='' g) \<longleftrightarrow> horizontalAlign_of p \<noteq> H_left)
    \<and> (sublist ''h='' (textSizing_paramsStr p) \<longleftrightarrow> horizontalAlign_of p \<noteq> H_left)
    \<and> suffix (textSizing_paramsStr p @ text @ ST) (textSizing p text)"
  using valid_fraction [OF assms] group_s [of p] wire_s [of p] group_w [of p] wire_w [of p]
    group_nd [of p] wire_n [of p] wire_d [of p] group_v [of p] wire_v [of p] group_h [of p]
    wire_h [of p] textSizing_ends [of p "text"]
  by blast

theorem textSizing_field_iff_not_default_witness:
  "valid_params all_fields
   \<and> ''s=2'' \<in> set (textSizing_parts all_fields)
   \<and> sublist ''s='' (textSizing_paramsStr all_fields)
   \<and> ''w=3'' \<in> set (textSizing_parts all_fields)
   \<and> sublist ''w='' (textSizing_paramsStr all_fields)
   \<and> ''n=1:d=2'' \<in> set (textSizing_parts all_fields)
   \<and> sublist ''n='' (textSizing_paramsStr all_fields)
   \<and> sublist ''d='' (textSizing_paramsStr all_fields)
   \<and> sublist ''v='' (textSizing_paramsStr all_fields)
   \<and> sublist ''h='' (textSizing_paramsStr all_fields)
   \<and> valid_params default_params
   \<and> ''s=1'' \<notin> set (textSizing_parts default_params)
   \<and> \<not> sublist ''s='' (textSizing_paramsStr default_params)
   \<and> ''w=0'' \<notin> set (textSizing_parts default_params)
   \<and> \<not> sublist ''w='' (textSizing_paramsStr default_params)
   \<and> ''n=0:d=0'' \<notin> set (textSizing_parts default_params)
   \<and> \<not> sublist ''n='' (textSizing_paramsStr default_params)
   \<and> \<not> sublist ''d='' (textSizing_paramsStr default_params)
   \<and> \<not> sublist ''v='' (textSizing_paramsStr default_params)
   \<and> \<not> sublist ''h='' (textSizing_paramsStr default_params)"
proof -
  have a: "valid_params all_fields" by (simp add: of_eval all_fields_def)
  have d: "valid_params default_params" by (simp add: of_eval default_params_def)
  have i: "int_str 0 = ''0''" "int_str 1 = ''1''" "int_str 2 = ''2''" "int_str 3 = ''3''"
    by (simp_all add: int_str_def nat_str.simps digit_char_def)
  show ?thesis
    using a d textSizing_field_iff_not_default [OF a, of "[]"]
      textSizing_field_iff_not_default [OF d, of "[]"]
    by (simp add: of_eval all_fields_def default_params_def i)
qed



text \<open>
  C5 (fixed order, colon-joined). For a parameter object in range with at least two
  contributing fields, the parts are the field groups of the contributing fields in
  the order scale, width, fractional pair, vertical alignment, horizontal alignment,
  and the parameter block is these groups joined by colons, closed by the semicolon
  that precedes the payload.
\<close>

theorem textSizing_field_order:
  assumes "valid_params p" and "2 \<le> length (field_groups p)"
  shows "textSizing_parts p = map (field_group p) (filter (contributes p) field_order)
    \<and> textSizing_paramsStr p
        = join '':'' (map (field_group p) (filter (contributes p) field_order)) @ '';''
    \<and> suffix (textSizing_paramsStr p @ text @ ST) (textSizing p text)"
proof -
  have a: "textSizing_parts p = field_groups p" using assms(1) by (rule parts_are_field_groups)
  with assms(2) have "length (textSizing_parts p) > 0" by (cases "field_groups p") simp_all
  then have "textSizing_paramsStr p = join '':'' (textSizing_parts p) @ '';''"
    by (simp add: textSizing_paramsStr_def)
  then show ?thesis using a textSizing_ends [of p "text"] by (simp add: field_groups_def)
qed

theorem textSizing_field_order_witness:
  "valid_params all_fields \<and> 2 \<le> length (field_groups all_fields)
   \<and> textSizing_parts all_fields = [''s=2'', ''w=3'', ''n=1:d=2'', ''v=1'', ''h=2'']
   \<and> textSizing_paramsStr all_fields = ''s=2:w=3:n=1:d=2:v=1:h=2;''"
proof -
  have a: "valid_params all_fields" by (simp add: of_eval all_fields_def)
  have i: "int_str 1 = ''1''" "int_str 2 = ''2''" "int_str 3 = ''3''"
    by (simp_all add: int_str_def nat_str.simps digit_char_def)
  have g: "field_groups all_fields = [''s=2'', ''w=3'', ''n=1:d=2'', ''v=1'', ''h=2'']"
    by (simp add: field_groups_def field_order_def of_eval all_fields_def i)
  then have l: "2 \<le> length (field_groups all_fields)" by simp
  show ?thesis
    using a l g textSizing_field_order [OF a l, of "[]"] by (simp add: field_groups_def)
qed

text \<open>
  C6 (alignment codes). Whatever the other fields, the parts that start with \<open>v=\<close>
  are none for top, exactly \<open>v=1\<close> for bottom and exactly \<open>v=2\<close> for center, and the
  parts that start with \<open>h=\<close> are none for left, exactly \<open>h=1\<close> for right and
  exactly \<open>h=2\<close> for center. The parameter block, which the returned string ends
  with before the payload and the terminator, contains the group, and so does the
  returned string; the block contains \<open>v=\<close> (or \<open>h=\<close>) only when the alignment
  is not top (or left), and so does the returned string when the payload has no
  letter \<open>v\<close> (or \<open>h\<close>) of its own.
\<close>

theorem textSizing_alignment_codes:
  "filter (prefix ''v='') (textSizing_parts p)
     = (case verticalAlign_of p of V_top \<Rightarrow> [] | V_bottom \<Rightarrow> [''v=1''] | V_center \<Rightarrow> [''v=2''])
   \<and> filter (prefix ''h='') (textSizing_parts p)
     = (case horizontalAlign_of p of H_left \<Rightarrow> [] | H_right \<Rightarrow> [''h=1''] | H_center \<Rightarrow> [''h=2''])
   \<and> (sublist ''v='' (textSizing_paramsStr p) \<longleftrightarrow> verticalAlign_of p \<noteq> V_top)
   \<and> (sublist ''h='' (textSizing_paramsStr p) \<longleftrightarrow> horizontalAlign_of p \<noteq> H_left)
   \<and> sublist (case verticalAlign_of p of V_top \<Rightarrow> [] | V_bottom \<Rightarrow> ''v=1'' | V_center \<Rightarrow> ''v=2'')
        (textSizing_paramsStr p)
   \<and> sublist (case horizontalAlign_of p of H_left \<Rightarrow> [] | H_right \<Rightarrow> ''h=1'' | H_center \<Rightarrow> ''h=2'')
        (textSizing_paramsStr p)
   \<and> suffix (textSizing_paramsStr p @ text @ ST) (textSizing p text)
   \<and> sublist (case verticalAlign_of p of V_top \<Rightarrow> [] | V_bottom \<Rightarrow> ''v=1'' | V_center \<Rightarrow> ''v=2'')
        (textSizing p text)
   \<and> sublist (case horizontalAlign_of p of H_left \<Rightarrow> [] | H_right \<Rightarrow> ''h=1'' | H_center \<Rightarrow> ''h=2'')
        (textSizing p text)
   \<and> (CHR ''v'' \<notin> set text \<longrightarrow>
        (sublist ''v='' (textSizing p text) \<longleftrightarrow> verticalAlign_of p \<noteq> V_top))
   \<and> (CHR ''h'' \<notin> set text \<longrightarrow>
        (sublist ''h='' (textSizing p text) \<longleftrightarrow> horizontalAlign_of p \<noteq> H_left))"
proof -
  have v: "sublist (case verticalAlign_of p of V_top \<Rightarrow> [] | V_bottom \<Rightarrow> ''v=1'' | V_center \<Rightarrow> ''v=2'')
        (textSizing_paramsStr p)"
  proof (cases "verticalAlign_of p")
    case V_top
    then show ?thesis by simp
  next
    case V_bottom
    then have "''v=1'' \<in> set (textSizing_parts p)"
      by (simp add: textSizing_parts_split verticalAlign_part_def)
    then show ?thesis using V_bottom part_in_paramsStr by simp
  next
    case V_center
    then have "''v=2'' \<in> set (textSizing_parts p)"
      by (simp add: textSizing_parts_split verticalAlign_part_def)
    then show ?thesis using V_center part_in_paramsStr by simp
  qed
  have h: "sublist (case horizontalAlign_of p of H_left \<Rightarrow> [] | H_right \<Rightarrow> ''h=1'' | H_center \<Rightarrow> ''h=2'')
        (textSizing_paramsStr p)"
  proof (cases "horizontalAlign_of p")
    case H_left
    then show ?thesis by simp
  next
    case H_right
    then have "''h=1'' \<in> set (textSizing_parts p)"
      by (simp add: textSizing_parts_split horizontalAlign_part_def)
    then show ?thesis using H_right part_in_paramsStr by simp
  next
    case H_center
    then have "''h=2'' \<in> set (textSizing_parts p)"
      by (simp add: textSizing_parts_split horizontalAlign_part_def)
    then show ?thesis using H_center part_in_paramsStr by simp
  qed
  have vo: "sublist (case verticalAlign_of p of V_top \<Rightarrow> [] | V_bottom \<Rightarrow> ''v=1'' | V_center \<Rightarrow> ''v=2'')
        (textSizing p text)"
    using v by (rule sublist_output_I)
  have ho: "sublist (case horizontalAlign_of p of H_left \<Rightarrow> [] | H_right \<Rightarrow> ''h=1'' | H_center \<Rightarrow> ''h=2'')
        (textSizing p text)"
    using h by (rule sublist_output_I)
  have parts: "filter (prefix ''v='') (textSizing_parts p)
     = (case verticalAlign_of p of V_top \<Rightarrow> [] | V_bottom \<Rightarrow> [''v=1''] | V_center \<Rightarrow> [''v=2''])"
    "filter (prefix ''h='') (textSizing_parts p)
     = (case horizontalAlign_of p of H_left \<Rightarrow> [] | H_right \<Rightarrow> [''h=1''] | H_center \<Rightarrow> [''h=2''])"
    by (simp_all add: groups_v groups_h verticalAlign_part_def horizontalAlign_part_def)
  show ?thesis
    using parts v h vo ho wire_v [of p] wire_h [of p] textSizing_ends [of p "text"]
      output_v [of "text" p] output_h [of "text" p]
    by blast
qed

theorem textSizing_alignment_codes_witness:
  "CHR ''v'' \<notin> set ''x'' \<and> CHR ''h'' \<notin> set ''x''
   \<and> sublist ''v=1'' (textSizing all_fields ''x'')
   \<and> sublist ''h=2'' (textSizing all_fields ''x'')
   \<and> sublist ''v='' (textSizing all_fields ''x'')
   \<and> sublist ''h='' (textSizing all_fields ''x'')
   \<and> \<not> sublist ''v='' (textSizing default_params ''x'')
   \<and> \<not> sublist ''h='' (textSizing default_params ''x'')
   \<and> sublist ''v=2'' (textSizing (no_params\<lparr>verticalAlign := Some V_center\<rparr>) ''x'')
   \<and> sublist ''h=1'' (textSizing (no_params\<lparr>horizontalAlign := Some H_right\<rparr>) ''x'')"
  using textSizing_alignment_codes [of all_fields "''x''"]
    textSizing_alignment_codes [of default_params "''x''"]
    textSizing_alignment_codes [of "no_params\<lparr>verticalAlign := Some V_center\<rparr>" "''x''"]
    textSizing_alignment_codes [of "no_params\<lparr>horizontalAlign := Some H_right\<rparr>" "''x''"]
  by (simp add: of_eval all_fields_def default_params_def no_params_def)

text \<open>
  C7 (probe queries). The width query is \<open>ESC]66;w=1; ST\<close>, the scale query is
  \<open>ESC]66;s=2; ST\<close> and the position-report request is \<open>ESC[6n\<close>, byte for byte;
  the two queries are what the Zig width and scale encoders write for width 1 and
  scale 2 applied to a single space.
\<close>

theorem probe_queries_exact:
  "map of_char explicitWidthQuery = [27, 93, 54, 54, 59, 119, 61, 49, 59, 32, 27, 92 :: nat]
   \<and> map of_char scaledTextQuery = [27, 93, 54, 54, 59, 115, 61, 50, 59, 32, 27, 92 :: nat]
   \<and> map of_char cursorPositionRequest = [27, 91, 54, 110 :: nat]
   \<and> explicitWidthQuery = ESC # '']66;w=1; '' @ ST
   \<and> scaledTextQuery = ESC # '']66;s=2; '' @ ST
   \<and> cursorPositionRequest = ESC # ''[6n''
   \<and> explicitWidthOutput empty_writer 1 '' '' = Inr \<lparr>written = explicitWidthQuery, limit = None\<rparr>
   \<and> scaledTextOutput empty_writer 2 '' '' = Inr \<lparr>written = scaledTextQuery, limit = None\<rparr>"
  by (simp add: explicitWidthQuery_def scaledTextQuery_def cursorPositionRequest_def
      explicitWidthOutput_def scaledTextOutput_def empty_writer_def writeAll_def fmt_d_def
      nat_str.simps digit_char_def)




text \<open>
  C9 (the TypeScript and Zig general encoders agree). For scale 2 and the text
  \<open>Hello\<close> the Zig encoder writes \<open>ESC]66;s=2;Hello ST\<close> and the TypeScript encoder
  returns \<open>ESC]66s=2;Hello ST\<close>.
\<close>

theorem textSizing_differs_from_textSizingOutput:
  "textSizing (no_params\<lparr>scale := Some 2\<rparr>) ''Hello'' = ESC # '']66s=2;Hello'' @ ST
   \<and> textSizingOutput empty_writer (default_params_zig\<lparr>scale_zig := 2\<rparr>) ''Hello''
       = Inr \<lparr>written = ESC # '']66;s=2;Hello'' @ ST, limit = None\<rparr>
   \<and> textSizing no_params ''Hello'' = ESC # '']66;Hello'' @ ST
   \<and> textSizingOutput empty_writer default_params_zig ''Hello''
       = Inr \<lparr>written = ESC # '']66;Hello'' @ ST, limit = None\<rparr>"
  by (simp add: ts_eval zig_eval)

text \<open>
  C10 (\<^verbatim>\<open>fractionalText\<close> is unconditional). For every numerator, denominator
  and text the output is \<open>ESC]66;n=<numerator>:d=<denominator>;<text> ST\<close>, so the pair
  is always present, also for numerator 0 and for a denominator that does not
  exceed the numerator.
\<close>

theorem fractionalText_unconditional:
  "fractionalText n d text = ESC # '']66;n='' @ int_str n @ '':d='' @ int_str d @ '';'' @ text @ ST
   \<and> sublist (''n='' @ int_str n @ '':d='' @ int_str d) (fractionalText n d text)
   \<and> fractionalText 0 0 text = ESC # '']66;n=0:d=0;'' @ text @ ST
   \<and> fractionalText 3 2 text = ESC # '']66;n=3:d=2;'' @ text @ ST"
proof -
  have "fractionalText n d text
      = (ESC # '']66;'') @ (''n='' @ int_str n @ '':d='' @ int_str d) @ ('';'' @ text @ ST)"
    by (simp add: fractionalText_def)
  then have a: "sublist (''n='' @ int_str n @ '':d='' @ int_str d) (fractionalText n d text)"
    by (simp only: sublist_appendI)
  have b: "int_str 0 = ''0''" "int_str 2 = ''2''" "int_str 3 = ''3''"
    by (simp_all add: int_str_def nat_str.simps digit_char_def)
  have c: "fractionalText 0 0 text = ESC # '']66;n=0:d=0;'' @ text @ ST"
    "fractionalText 3 2 text = ESC # '']66;n=3:d=2;'' @ text @ ST"
    by (simp_all add: fractionalText_def b)
  show ?thesis using a c by (simp add: fractionalText_def)
qed

end
